theory Spec2Isabelle
  imports Main "HOL-Library.Sublist" "HOL-Library.Product_Lexorder"
begin

section \<open>Python values\<close>

text \<open>
  The scraper of \<^verbatim>\<open>src/tinder_scrap.py\<close> works on whatever \<^verbatim>\<open>response.json()\<close>
  or \<^verbatim>\<open>response.text\<close> hands it, so its data is dynamically typed.  A value is
  \<^verbatim>\<open>None\<close>, a bool, an int, a str, a list or a dict with string keys.  A dict is an
  association list read with \<open>map_of\<close>; \<^verbatim>\<open>json.loads\<close> produces dicts whose keys
  are distinct.  Floats are left out, and a str is a list of HOL characters.
\<close>

datatype pyval =
    PNone
  | PBool bool
  | PInt int
  | PStr string
  | PList "pyval list"
  | PDict "(string \<times> pyval) list"

datatype py_error = TypeError | AttributeError | KeyError | ValueError | KeyboardInterrupt

text \<open>Truth value testing: \<^verbatim>\<open>not x\<close>, \<^verbatim>\<open>x or y\<close>, \<^verbatim>\<open>if x\<close>.\<close>

fun truthy :: "pyval \<Rightarrow> bool" where
  "truthy PNone = False"
| "truthy (PBool b) = b"
| "truthy (PInt n) = (n \<noteq> 0)"
| "truthy (PStr s) = (s \<noteq> [])"
| "truthy (PList xs) = (xs \<noteq> [])"
| "truthy (PDict d) = (d \<noteq> [])"

text \<open>
  \<^verbatim>\<open>a == b\<close>.  A bool is an int in Python, so \<^verbatim>\<open>True == 1\<close>; lists are equal
  when they have the same length and equal items; dicts are equal when they have the same
  number of keys and every key of the left one is a key of the right one with an equal value.
\<close>

function (sequential) py_eq :: "pyval \<Rightarrow> pyval \<Rightarrow> bool" where
  "py_eq PNone PNone = True"
| "py_eq (PBool a) (PBool b) = (a = b)"
| "py_eq (PBool a) (PInt n) = ((if a then 1 else 0) = n)"
| "py_eq (PInt m) (PBool b) = (m = (if b then 1 else 0))"
| "py_eq (PInt m) (PInt n) = (m = n)"
| "py_eq (PStr s) (PStr t) = (s = t)"
| "py_eq (PList xs) (PList ys) =
     (length xs = length ys \<and> list_all (\<lambda>(x, y). py_eq x y) (zip xs ys))"
| "py_eq (PDict a) (PDict b) =
     (length a = length b \<and>
      list_all (\<lambda>(k, v). case map_of b k of None \<Rightarrow> False | Some w \<Rightarrow> py_eq v w) a)"
| "py_eq _ _ = False"
  by pat_completeness auto
termination
proof (relation "measure (\<lambda>(x, y). size x)")
  show "wf (measure (\<lambda>(x, y). size x))" by simp
next
  fix xs ys :: "pyval list" and z x y
  assume "z \<in> set (zip xs ys)" "(x, y) = z"
  then have "x \<in> set xs" by (auto dest: set_zip_leftD)
  then have "size x \<le> size_list size xs" by (rule size_list_estimation') simp
  then show "((x, y), PList xs, PList ys) \<in> measure (\<lambda>(x, y). size x)" by simp
next
  fix a b :: "(string \<times> pyval) list" and z k v w
  assume "z \<in> set a" "(k, v) = z" "map_of b k = Some w"
  then have "(k, v) \<in> set a" by simp
  then have "size v \<le> size_list (size_prod (\<lambda>_. 0) size) a"
    by (rule size_list_estimation') simp
  then show "((v, w), PDict a, PDict b) \<in> measure (\<lambda>(x, y). size x)" by simp
qed

text \<open>\<^verbatim>\<open>key in x\<close> for a string \<open>key\<close>: a key of a dict, an item of a list, a substring of a str.\<close>

fun py_in :: "string \<Rightarrow> pyval \<Rightarrow> py_error + bool" where
  "py_in k (PDict d) = Inr (k \<in> set (map fst d))"
| "py_in k (PList xs) = Inr (PStr k \<in> set xs)"
| "py_in k (PStr t) = Inr (sublist k t)"
| "py_in k _ = Inl TypeError"

text \<open>\<^verbatim>\<open>x[key]\<close> for a string \<open>key\<close>: only a dict can be indexed by a str.\<close>

fun py_getitem :: "pyval \<Rightarrow> string \<Rightarrow> py_error + pyval" where
  "py_getitem (PDict d) k = (case map_of d k of None \<Rightarrow> Inl KeyError | Some v \<Rightarrow> Inr v)"
| "py_getitem _ k = Inl TypeError"

text \<open>\<^verbatim>\<open>x.get(key, default)\<close>: only a dict has the method.\<close>

fun py_get :: "pyval \<Rightarrow> string \<Rightarrow> pyval \<Rightarrow> py_error + pyval" where
  "py_get (PDict d) k dflt = Inr (case map_of d k of None \<Rightarrow> dflt | Some v \<Rightarrow> v)"
| "py_get _ k dflt = Inl AttributeError"

text \<open>\<^verbatim>\<open>for item in x\<close>: the items of a list, the keys of a dict, the characters of a str.\<close>

fun py_iter :: "pyval \<Rightarrow> py_error + pyval list" where
  "py_iter (PList xs) = Inr xs"
| "py_iter (PDict d) = Inr (map (\<lambda>(k, v). PStr k) d)"
| "py_iter (PStr t) = Inr (map (\<lambda>c. PStr [c]) t)"
| "py_iter _ = Inl TypeError"

text \<open>\<^verbatim>\<open>s.replace(old, new)\<close> where \<open>old\<close> is a single character.\<close>

fun str_replace :: "char \<Rightarrow> string \<Rightarrow> string \<Rightarrow> string" where
  "str_replace old new [] = []"
| "str_replace old new (c # s) =
     (if c = old then new @ str_replace old new s else c # str_replace old new s)"

text \<open>\<^verbatim>\<open>sep.join(items)\<close>.\<close>

fun str_join :: "string \<Rightarrow> string list \<Rightarrow> string" where
  "str_join sep [] = []"
| "str_join sep [x] = x"
| "str_join sep (x # y # ys) = x @ sep @ str_join sep (y # ys)"

section \<open>The age calculator\<close>

text \<open>
  Of a \<^verbatim>\<open>datetime\<close> the code reads \<^verbatim>\<open>year\<close>, \<^verbatim>\<open>month\<close> and \<^verbatim>\<open>day\<close> only.
  \<^verbatim>\<open>datetime.fromisoformat\<close> belongs to the Python library, not to the repository: it is
  a parameter of the model, \<open>None\<close> standing for the \<^verbatim>\<open>ValueError\<close> it raises.
\<close>

record datetime =
  year :: int
  month :: int
  day :: int

datatype age = Age int | NA

text \<open>The body of the \<^verbatim>\<open>try\<close> block of \<^verbatim>\<open>calculate_age\<close>.\<close>

definition calculate_age_try ::
  "(string \<Rightarrow> datetime option) \<Rightarrow> datetime \<Rightarrow> pyval \<Rightarrow> py_error + age" where
  "calculate_age_try fromisoformat today birth_date_str =
     (if \<not> truthy birth_date_str \<or> py_eq birth_date_str (PStr ''N/A'') then Inr NA
      else case birth_date_str of
        PStr s \<Rightarrow>
          (case fromisoformat (str_replace CHR ''Z'' ''+00:00'' s) of
             None \<Rightarrow> Inl ValueError
           | Some birth_date \<Rightarrow>
               let age = year today - year birth_date;
                   age = (if month today < month birth_date \<or>
                             (month today = month birth_date \<and> day today < day birth_date)
                          then age - 1 else age)
               in Inr (Age age))
      | _ \<Rightarrow> Inl AttributeError)"

text \<open>\<^verbatim>\<open>calculate_age\<close>: the bare \<^verbatim>\<open>except\<close> turns every failure into \<^verbatim>\<open>'N/A'\<close>.\<close>

definition calculate_age ::
  "(string \<Rightarrow> datetime option) \<Rightarrow> datetime \<Rightarrow> pyval \<Rightarrow> age" where
  "calculate_age fromisoformat today birth_date_str =
     (case calculate_age_try fromisoformat today birth_date_str of
        Inl _ \<Rightarrow> NA
      | Inr a \<Rightarrow> a)"

section \<open>The scraper and its surroundings\<close>

text \<open>
  One row of the collection, the dict \<^verbatim>\<open>user_data\<close> built by
  \<^verbatim>\<open>extract_users_from_response\<close>.  \<^verbatim>\<open>user_id\<close>, \<^verbatim>\<open>name\<close> and
  \<^verbatim>\<open>birth_date\<close> are stored as they arrive.
\<close>

record user_data =
  user_id :: pyval
  name :: pyval
  age :: age
  bio :: string
  birth_date :: pyval
  photo_count :: nat
  photo_urls :: string

text \<open>
  The fields of \<^verbatim>\<open>TinderScraper\<close> that the polling loop reads or writes.  \<open>csv_rows\<close>
  is the content of the CSV file below its header row.
\<close>

record scraper =
  users_collected :: "user_data list"
  request_count :: nat
  csv_filename :: string
  csv_rows :: "user_data list"

text \<open>\<^verbatim>\<open>__init__\<close> followed by \<^verbatim>\<open>init_csv\<close>; the file name carries the starting time.\<close>

definition init_scraper :: "string \<Rightarrow> scraper" where
  "init_scraper filename =
     \<lparr>users_collected = [], request_count = 0, csv_filename = filename, csv_rows = []\<rparr>"

text \<open>
  What the program takes from outside: the date parser of the library, and the clock.
  \<^verbatim>\<open>datetime.now()\<close> is read once for every record that is built; the reading is
  indexed by the request counter and the size of the collection at that moment, which
  differ from one reading to the next.
\<close>

record env =
  fromisoformat :: "string \<Rightarrow> datetime option"
  now :: "nat \<Rightarrow> nat \<Rightarrow> datetime"

text \<open>
  A \<^verbatim>\<open>response\<close> of the HTTP client: \<open>json\<close> is what \<^verbatim>\<open>response.json()\<close> returns,
  \<open>None\<close> when it raises \<^verbatim>\<open>JSONDecodeError\<close>.
\<close>

record response =
  status_code :: int
  "text" :: string
  json :: "pyval option"

text \<open>
  What one \<^verbatim>\<open>requests.get\<close> does: it is interrupted from the keyboard, it raises a
  \<^verbatim>\<open>RequestException\<close> with a message, or it returns a response.
\<close>

datatype fetch = Fetch_interrupted | Fetch_failed string | Fetch_response response

text \<open>
  One cycle of the outside world: the outcome of the request, and whether the
  \<^verbatim>\<open>time.sleep\<close> that follows a page with new users is interrupted from the keyboard.
  These are the two places where the program waits; an interrupt is taken at no other.
\<close>

record cycle =
  fetched :: fetch
  sleep_interrupted :: bool

text \<open>Sequencing of computations that may raise.\<close>

definition bind_err :: "'e + 'a \<Rightarrow> ('a \<Rightarrow> 'e + 'b) \<Rightarrow> 'e + 'b" where
  "bind_err m f = (case m of Inl e \<Rightarrow> Inl e | Inr v \<Rightarrow> f v)"

text \<open>\<^verbatim>\<open>make_recs_request\<close>: the pair of the status (\<open>None\<close> after a transport failure) and the data.\<close>

fun make_recs_request :: "fetch \<Rightarrow> py_error + (int option \<times> pyval)" where
  "make_recs_request Fetch_interrupted = Inl KeyboardInterrupt"
| "make_recs_request (Fetch_failed e) = Inr (None, PStr e)"
| "make_recs_request (Fetch_response r) =
     (if status_code r = 200
      then (case json r of
              Some j \<Rightarrow> Inr (Some (status_code r), j)
            | None \<Rightarrow> Inr (Some (status_code r), PStr (text r)))
      else Inr (Some (status_code r), PStr (text r)))"

section \<open>The extractor\<close>

text \<open>\<^verbatim>\<open>[p.get('url') for p in photos if p.get('url')]\<close>\<close>

fun photo_url_list :: "pyval list \<Rightarrow> py_error + pyval list" where
  "photo_url_list [] = Inr []"
| "photo_url_list (p # ps) =
     bind_err (py_get p ''url'' PNone) (\<lambda>u.
     bind_err (photo_url_list ps) (\<lambda>us.
     Inr (if truthy u then u # us else us)))"

text \<open>\<^verbatim>\<open>len(x)\<close>\<close>

fun py_len :: "pyval \<Rightarrow> py_error + nat" where
  "py_len (PList xs) = Inr (length xs)"
| "py_len (PDict d) = Inr (length d)"
| "py_len (PStr t) = Inr (length t)"
| "py_len _ = Inl TypeError"

text \<open>\<^verbatim>\<open>sep.join(items)\<close> on Python values: every item has to be a str.\<close>

fun str_items :: "pyval list \<Rightarrow> py_error + string list" where
  "str_items [] = Inr []"
| "str_items (PStr s # xs) = bind_err (str_items xs) (\<lambda>ss. Inr (s # ss))"
| "str_items (_ # xs) = Inl TypeError"

definition py_join :: "string \<Rightarrow> pyval list \<Rightarrow> py_error + string" where
  "py_join sep xs = bind_err (str_items xs) (\<lambda>ss. Inr (str_join sep ss))"

text \<open>\<^verbatim>\<open>(user.get('bio') or '').replace('\n', ' ').replace('\r', ' ')\<close>\<close>

definition bio_of :: "pyval \<Rightarrow> py_error + string" where
  "bio_of user =
     bind_err (py_get user ''bio'' PNone) (\<lambda>b.
     case (if truthy b then b else PStr []) of
       PStr t \<Rightarrow> Inr (str_replace (CHR 0x0D) '' '' (str_replace (CHR 0x0A) '' '' t))
     | _ \<Rightarrow> Inl AttributeError)"

text \<open>
  The lines of the loop body from \<^verbatim>\<open>photos = ...\<close> to the end of the dict display
  \<^verbatim>\<open>user_data = {...}\<close>, in the order in which Python evaluates them.
\<close>

definition make_user_data :: "env \<Rightarrow> scraper \<Rightarrow> pyval \<Rightarrow> pyval \<Rightarrow> py_error + user_data" where
  "make_user_data e s user uid =
     bind_err (py_get user ''photos'' (PList [])) (\<lambda>photos.
     bind_err (py_iter photos) (\<lambda>items.
     bind_err (photo_url_list items) (\<lambda>urls.
     bind_err (py_get user ''name'' (PStr [])) (\<lambda>nm.
     bind_err (py_get user ''birth_date'' (PStr [])) (\<lambda>bd.
     bind_err (bio_of user) (\<lambda>b.
     bind_err (py_len photos) (\<lambda>n.
     bind_err (py_join '' | '' urls) (\<lambda>joined.
     Inr \<lparr>user_id = uid,
          name = nm,
          age = calculate_age (fromisoformat e)
                  (now e (request_count s) (length (users_collected s))) bd,
          bio = b,
          birth_date = bd,
          photo_count = n,
          photo_urls = joined\<rparr>))))))))"

text \<open>
  The \<^verbatim>\<open>for\<close> loop of \<^verbatim>\<open>extract_users_from_response\<close> over the items still to
  visit, with \<^verbatim>\<open>users_found\<close> so far.  An exception leaves the records appended before
  it in the collection.
\<close>

fun extract_loop ::
  "env \<Rightarrow> pyval list \<Rightarrow> nat \<Rightarrow> scraper \<Rightarrow> (py_error + nat) \<times> scraper" where
  "extract_loop e [] users_found s = (Inr users_found, s)"
| "extract_loop e (result # rest) users_found s =
     (case py_get result ''type'' PNone of
        Inl err \<Rightarrow> (Inl err, s)
      | Inr ty \<Rightarrow>
          if \<not> py_eq ty (PStr ''user'') then extract_loop e rest users_found s
          else
            (case bind_err (py_get result ''user'' (PDict []))
                    (\<lambda>user. bind_err (py_get user ''_id'' PNone) (\<lambda>uid. Inr (user, uid))) of
               Inl err \<Rightarrow> (Inl err, s)
             | Inr (user, uid) \<Rightarrow>
                 if \<not> truthy uid \<or> list_ex (\<lambda>u. py_eq (user_id u) uid) (users_collected s)
                 then extract_loop e rest users_found s
                 else
                   (case make_user_data e s user uid of
                      Inl err \<Rightarrow> (Inl err, s)
                    | Inr ud \<Rightarrow>
                        extract_loop e rest (users_found + 1)
                          (s\<lparr>users_collected := users_collected s @ [ud]\<rparr>))))"

text \<open>\<^verbatim>\<open>extract_users_from_response\<close>\<close>

definition extract_users_from_response ::
  "env \<Rightarrow> pyval \<Rightarrow> scraper \<Rightarrow> (py_error + nat) \<times> scraper" where
  "extract_users_from_response e data s =
     (case bind_err (py_in ''data'' data) (\<lambda>has_data.
             if \<not> has_data then Inr None
             else bind_err (py_getitem data ''data'') (\<lambda>d.
                  bind_err (py_in ''results'' d) (\<lambda>has_results.
                  if \<not> has_results then Inr None
                  else bind_err (py_getitem d ''results'') (\<lambda>results.
                       bind_err (py_iter results) (\<lambda>items. Inr (Some items)))))) of
        Inl err \<Rightarrow> (Inl err, s)
      | Inr None \<Rightarrow> (Inr 0, s)
      | Inr (Some items) \<Rightarrow> extract_loop e items 0 s)"

text \<open>\<^verbatim>\<open>save_users_to_csv\<close>\<close>

definition save_users_to_csv :: "user_data list \<Rightarrow> scraper \<Rightarrow> scraper" where
  "save_users_to_csv new_users_data s =
     (if new_users_data = [] then s
      else s\<lparr>csv_rows := csv_rows s @ new_users_data\<rparr>)"

section \<open>The polling loop\<close>

text \<open>
  How the \<^verbatim>\<open>while\<close> loop of \<^verbatim>\<open>run_continuous_scraping\<close> is left: by one of the two
  \<^verbatim>\<open>break\<close>s, by its condition, by \<^verbatim>\<open>KeyboardInterrupt\<close>, or by another exception,
  which passes through the \<^verbatim>\<open>try\<close> statement.  \<open>Script_ended\<close> says that the loop
  was still running when the given cycles were used up.
\<close>

datatype loop_exit =
    STOP_NON_200
  | STOP_EMPTY_PAGE
  | STOP_REQUEST_LIMIT
  | STOP_INTERRUPTED
  | Raised py_error
  | Script_ended

text \<open>\<^verbatim>\<open>not max_requests or self.request_count < max_requests\<close>\<close>

definition loop_condition :: "int option \<Rightarrow> scraper \<Rightarrow> bool" where
  "loop_condition max_requests s =
     (case max_requests of
        None \<Rightarrow> True
      | Some m \<Rightarrow> m = 0 \<or> int (request_count s) < m)"

text \<open>\<^verbatim>\<open>except KeyboardInterrupt\<close> catches that exception and no other.\<close>

definition leave_by :: "py_error \<Rightarrow> loop_exit" where
  "leave_by err = (if err = KeyboardInterrupt then STOP_INTERRUPTED else Raised err)"

fun scraping_loop ::
  "env \<Rightarrow> int option \<Rightarrow> cycle list \<Rightarrow> scraper \<Rightarrow> loop_exit \<times> scraper" where
  "scraping_loop e max_requests [] s =
     (if \<not> loop_condition max_requests s then (STOP_REQUEST_LIMIT, s)
      else (Script_ended, s))"
| "scraping_loop e max_requests (c # cs) s =
     (if \<not> loop_condition max_requests s then (STOP_REQUEST_LIMIT, s)
      else
        let s1 = s\<lparr>request_count := request_count s + 1\<rparr> in
        case make_recs_request (fetched c) of
          Inl err \<Rightarrow> (leave_by err, s1)
        | Inr (status, response_data) \<Rightarrow>
            if status \<noteq> Some 200 then (STOP_NON_200, s1)
            else
              let initial_user_count = length (users_collected s1) in
              case extract_users_from_response e response_data s1 of
                (Inl err, s2) \<Rightarrow> (leave_by err, s2)
              | (Inr new_users_count, s2) \<Rightarrow>
                  if new_users_count > 0 then
                    let new_batch = drop initial_user_count (users_collected s2);
                        s3 = save_users_to_csv new_batch s2
                    in if sleep_interrupted c then (STOP_INTERRUPTED, s3)
                       else scraping_loop e max_requests cs s3
                  else (STOP_EMPTY_PAGE, s2))"

section \<open>The summary\<close>

text \<open>The lines of the summary that carry data, as the \<^verbatim>\<open>finally\<close> block prints them.\<close>

datatype summary_line =
    Total_requests nat
  | Total_users nat
  | CSV_file string
  | Sample_header
  | Sample nat pyval pyval age nat
  | More_users nat

text \<open>
  \<^verbatim>\<open>x[:n]\<close>: a str and a list can be sliced.  A dict raises (\<^verbatim>\<open>TypeError\<close> up to
  Python 3.11, \<^verbatim>\<open>KeyError\<close> from 3.12 on), and so do the other values.
\<close>

fun py_slice_to :: "nat \<Rightarrow> pyval \<Rightarrow> py_error + pyval" where
  "py_slice_to n (PStr t) = Inr (PStr (take n t))"
| "py_slice_to n (PList xs) = Inr (PList (take n xs))"
| "py_slice_to n _ = Inl TypeError"

text \<open>
  \<^verbatim>\<open>for i, user in enumerate(...)\<close>: the lines printed, and the exception that ended
  the printing if there was one.
\<close>

fun sample_lines :: "nat \<Rightarrow> user_data list \<Rightarrow> summary_line list \<times> py_error option" where
  "sample_lines i [] = ([], None)"
| "sample_lines i (user # users) =
     (case py_slice_to 8 (user_id user) of
        Inl err \<Rightarrow> ([], Some err)
      | Inr prefix_of_id \<Rightarrow>
          let (lines, err) = sample_lines (i + 1) users
          in (Sample (i + 1) (name user) prefix_of_id (age user) (photo_count user) # lines, err))"

definition summary :: "scraper \<Rightarrow> summary_line list \<times> py_error option" where
  "summary s =
     (let totals = [Total_requests (request_count s),
                    Total_users (length (users_collected s)),
                    CSV_file (csv_filename s)]
      in if users_collected s = [] then (totals, None)
         else
           case sample_lines 0 (take 5 (users_collected s)) of
             (lines, Some err) \<Rightarrow> (totals @ Sample_header # lines, Some err)
           | (lines, None) \<Rightarrow>
               (totals @ Sample_header # lines @
                  (if length (users_collected s) > 5
                   then [More_users (length (users_collected s) - 5)] else []),
                None))"

section \<open>The run\<close>

text \<open>
  What a call of \<^verbatim>\<open>run_continuous_scraping\<close> leaves behind: how the loop was left, the
  scraper, the summary printed by the \<^verbatim>\<open>finally\<close> block, and the exception that
  leaves the call, if any (one raised inside the \<^verbatim>\<open>finally\<close> block replaces the one
  that was passing through).
\<close>

record run_result =
  exit_by :: loop_exit
  final :: scraper
  printed :: "summary_line list"
  raised :: "py_error option"

text \<open>
  \<^verbatim>\<open>run_continuous_scraping\<close> against the given cycles of the outside world;
  \<open>None\<close> when the loop outlasts them.  The progress messages of the loop are not
  part of the model.
\<close>

definition run_continuous_scraping ::
  "env \<Rightarrow> int option \<Rightarrow> cycle list \<Rightarrow> scraper \<Rightarrow> run_result option" where
  "run_continuous_scraping e max_requests script s =
     (case scraping_loop e max_requests script s of
        (Script_ended, s') \<Rightarrow> None
      | (ex, s') \<Rightarrow>
          let (lines, err) = summary s'
          in Some \<lparr>exit_by = ex, final = s', printed = lines,
                   raised = (case err of
                               Some x \<Rightarrow> Some x
                             | None \<Rightarrow> (case ex of Raised x \<Rightarrow> Some x | _ \<Rightarrow> None))\<rparr>)"

section \<open>Notions used to state the properties\<close>

text \<open>
  No two records of a collection have ids that Python's \<^verbatim>\<open>==\<close> identifies, the
  older record standing on the left of the comparison as in the extractor's scan.
\<close>

fun ids_unique :: "user_data list \<Rightarrow> bool" where
  "ids_unique [] = True"
| "ids_unique (u # us) =
     (\<not> list_ex (\<lambda>v. py_eq (user_id u) (user_id v)) us \<and> ids_unique us)"

text \<open>
  A date parser to run the age calculator on: the format \<^verbatim>\<open>YYYY-MM-DD\<close>, which
  every version of \<^verbatim>\<open>datetime.fromisoformat\<close> reads.  Whatever else the library may
  accept is rejected here.
\<close>

definition digit :: "char \<Rightarrow> int option" where
  "digit c =
     (let n = (of_char c :: nat) in if 48 \<le> n \<and> n \<le> 57 then Some (int n - 48) else None)"

definition digits :: "string \<Rightarrow> int option" where
  "digits cs =
     (if cs = [] then None
      else fold (\<lambda>c acc. case (acc, digit c) of (Some a, Some d) \<Rightarrow> Some (10 * a + d) | _ \<Rightarrow> None)
             cs (Some 0))"

definition days_in_month :: "int \<Rightarrow> int \<Rightarrow> int" where
  "days_in_month y m =
     (if m = 2 then (if y mod 4 = 0 \<and> (y mod 100 \<noteq> 0 \<or> y mod 400 = 0) then 29 else 28)
      else if m \<in> {4, 6, 9, 11} then 30 else 31)"

definition date_only :: "string \<Rightarrow> datetime option" where
  "date_only s =
     (if length s = 10 \<and> s ! 4 = CHR ''-'' \<and> s ! 7 = CHR ''-'' then
        (case (digits (take 4 s), digits (take 2 (drop 5 s)), digits (drop 8 s)) of
           (Some y, Some m, Some d) \<Rightarrow>
             if 1 \<le> y \<and> 1 \<le> m \<and> m \<le> 12 \<and> 1 \<le> d \<and> d \<le> days_in_month y m
             then Some \<lparr>year = y, month = m, day = d\<rparr> else None
         | _ \<Rightarrow> None)
      else None)"

text \<open>
  Pages as the recommendations endpoint sends them: an item of \<^verbatim>\<open>data.results\<close> that
  holds a user, the page around the items, and a cycle in which the request is answered and
  the pause is left alone.
\<close>

definition user_entry :: "(string \<times> pyval) list \<Rightarrow> pyval" where
  "user_entry u = PDict [(''type'', PStr ''user''), (''user'', PDict u)]"

definition results_page :: "pyval list \<Rightarrow> pyval" where
  "results_page items = PDict [(''data'', PDict [(''results'', PList items)])]"

definition answer :: "int \<Rightarrow> string \<Rightarrow> pyval option \<Rightarrow> cycle" where
  "answer st t j =
     \<lparr>fetched = Fetch_response \<lparr>status_code = st, text = t, json = j\<rparr>,
      sleep_interrupted = False\<rparr>"

text \<open>
  The preview of the summary as the specification describes it, for records whose id is a
  string (the data model's \<^verbatim>\<open>user_id\<close>): a header, one line for each of the first five
  records with the first eight characters of the id, and the number of records left out.
\<close>

definition has_str_id :: "user_data \<Rightarrow> bool" where
  "has_str_id u = (case user_id u of PStr a \<Rightarrow> True | _ \<Rightarrow> False)"

definition preview_of :: "user_data list \<Rightarrow> summary_line list" where
  "preview_of us =
     (if us = [] then []
      else Sample_header #
           map (\<lambda>(i, u). Sample (i + 1) (name u)
                            (case user_id u of PStr a \<Rightarrow> PStr (take 8 a) | x \<Rightarrow> x)
                            (age u) (photo_count u))
               (enumerate 0 (take 5 us)) @
           (if length us > 5 then [More_users (length us - 5)] else []))"

text \<open>An environment and a record to run the examples on.\<close>

definition sample_env :: env where
  "sample_env =
     \<lparr>fromisoformat = date_only,
      now = (\<lambda>requests users. \<lparr>year = 2024, month = 6, day = 14\<rparr>)\<rparr>"

definition u1_record :: user_data where
  "u1_record = \<lparr>user_id = PStr ''u1'', name = PStr [], age = NA, bio = [],
                 birth_date = PStr [], photo_count = 0, photo_urls = []\<rparr>"

text \<open>
  A photo entry as the endpoint documents it: a dict whose \<^verbatim>\<open>url\<close>, when present, is a
  string or \<^verbatim>\<open>null\<close>; and the url it carries, empty when there is none.
\<close>

definition photo_entry :: "pyval \<Rightarrow> bool" where
  "photo_entry p =
     (case p of
        PDict d \<Rightarrow> (case map_of d ''url'' of
                      None \<Rightarrow> True | Some PNone \<Rightarrow> True | Some (PStr u) \<Rightarrow> True
                    | Some _ \<Rightarrow> False)
      | _ \<Rightarrow> False)"

definition url_of :: "pyval \<Rightarrow> string" where
  "url_of p =
     (case p of
        PDict d \<Rightarrow> (case map_of d ''url'' of Some (PStr u) \<Rightarrow> u | _ \<Rightarrow> [])
      | _ \<Rightarrow> [])"

section \<open>Facts about the extractor and the loop\<close>

lemma ids_unique_snoc:
  "ids_unique (us @ [u]) =
     (ids_unique us \<and> \<not> list_ex (\<lambda>v. py_eq (user_id v) (user_id u)) us)"
  by (induction us) (auto simp: list_ex_iff)

lemma ids_unique_prefix: "ids_unique (us @ vs) \<Longrightarrow> ids_unique us"
  by (induction us) (auto simp: list_ex_iff)


lemma py_get_no_interrupt: "py_get x k d \<noteq> Inl KeyboardInterrupt"
  by (cases x) auto

lemma py_iter_no_interrupt: "py_iter x \<noteq> Inl KeyboardInterrupt"
  by (cases x) auto

lemma py_in_no_interrupt: "py_in k x \<noteq> Inl KeyboardInterrupt"
  by (cases x) auto

lemma py_getitem_no_interrupt: "py_getitem x k \<noteq> Inl KeyboardInterrupt"
  by (cases x) (auto split: option.splits)

lemma py_len_no_interrupt: "py_len x \<noteq> Inl KeyboardInterrupt"
  by (cases x) auto

lemma bind_err_no_interrupt:
  "m \<noteq> Inl KeyboardInterrupt \<Longrightarrow> (\<And>v. f v \<noteq> Inl KeyboardInterrupt) \<Longrightarrow>
     bind_err m f \<noteq> Inl KeyboardInterrupt"
  by (cases m) (auto simp: bind_err_def)

lemma if_no_interrupt:
  "a \<noteq> Inl KeyboardInterrupt \<Longrightarrow> b \<noteq> Inl KeyboardInterrupt \<Longrightarrow>
     (if c then a else b) \<noteq> Inl KeyboardInterrupt"
  by simp

lemma photo_url_list_no_interrupt: "photo_url_list ps \<noteq> Inl KeyboardInterrupt"
proof (induction ps)
  case Nil
  show ?case by simp
next
  case (Cons p ps)
  show ?case
    unfolding photo_url_list.simps
    by (intro bind_err_no_interrupt py_get_no_interrupt Cons.IH) simp
qed

lemma str_items_no_interrupt: "str_items xs \<noteq> Inl KeyboardInterrupt"
proof (induction xs rule: str_items.induct)
  case (2 s xs)
  show ?case
    unfolding str_items.simps
    by (intro bind_err_no_interrupt "2.IH") simp
qed simp_all

lemma bio_of_no_interrupt: "bio_of user \<noteq> Inl KeyboardInterrupt"
  unfolding bio_of_def
  by (intro bind_err_no_interrupt py_get_no_interrupt) (simp split: pyval.splits)

lemma make_user_data_no_interrupt: "make_user_data e s user uid \<noteq> Inl KeyboardInterrupt"
  unfolding make_user_data_def py_join_def
  by (intro bind_err_no_interrupt py_get_no_interrupt py_iter_no_interrupt
      photo_url_list_no_interrupt bio_of_no_interrupt py_len_no_interrupt
      str_items_no_interrupt) simp_all

lemma make_user_data_user_id: "make_user_data e s user uid = Inr ud \<Longrightarrow> user_id ud = uid"
  unfolding make_user_data_def py_join_def bind_err_def
  by (auto split: sum.splits)

text \<open>One turn of the loop skips the item, raises, or appends one record with a new id.\<close>

lemma extract_loop_step:
  obtains (skip) "extract_loop e (result # rest) found s = extract_loop e rest found s"
  | (raise) err where "extract_loop e (result # rest) found s = (Inl err, s)"
      "err \<noteq> KeyboardInterrupt"
  | (append) ud where "truthy (user_id ud)"
      "\<not> list_ex (\<lambda>u. py_eq (user_id u) (user_id ud)) (users_collected s)"
      "extract_loop e (result # rest) found s =
         extract_loop e rest (found + 1) (s\<lparr>users_collected := users_collected s @ [ud]\<rparr>)"
proof (cases "py_get result ''type'' PNone")
  case (Inl err)
  with py_get_no_interrupt[of result "''type''" PNone] raise[of err] show ?thesis by auto
next
  case ty: (Inr ty)
  show ?thesis
  proof (cases "py_eq ty (PStr ''user'')")
    case False
    with ty skip show ?thesis by simp
  next
    case is_user: True
    show ?thesis
    proof (cases "py_get result ''user'' (PDict [])")
      case (Inl err)
      with py_get_no_interrupt[of result "''user''" "PDict []"] ty is_user raise[of err]
      show ?thesis by (auto simp: bind_err_def)
    next
      case user: (Inr user)
      show ?thesis
      proof (cases "py_get user ''_id'' PNone")
        case (Inl err)
        with py_get_no_interrupt[of user "''_id''" PNone] ty is_user user raise[of err]
        show ?thesis by (auto simp: bind_err_def)
      next
        case uid: (Inr uid)
        show ?thesis
        proof (cases "\<not> truthy uid \<or> list_ex (\<lambda>u. py_eq (user_id u) uid) (users_collected s)")
          case True
          with ty is_user user uid skip show ?thesis by (simp add: bind_err_def)
        next
          case fresh: False
          show ?thesis
          proof (cases "make_user_data e s user uid")
            case (Inl err)
            with make_user_data_no_interrupt[of e s user uid] ty is_user user uid fresh raise[of err]
            show ?thesis by (simp add: bind_err_def)
          next
            case (Inr ud)
            with make_user_data_user_id[OF Inr] ty is_user user uid fresh append[of ud]
            show ?thesis by (simp add: bind_err_def)
          qed
        qed
      qed
    qed
  qed
qed


lemma extract_loop_appends:
  "\<exists>new. snd (extract_loop e items found s) = s\<lparr>users_collected := users_collected s @ new\<rparr> \<and>
         (\<forall>n. fst (extract_loop e items found s) = Inr n \<longrightarrow> n = found + length new)"
proof (induction items arbitrary: found s)
  case Nil
  show ?case by simp
next
  case (Cons result rest)
  show ?case
  proof (cases rule: extract_loop_step[of e result rest found s])
    case skip
    with Cons.IH[of found s] show ?thesis by simp
  next
    case (raise err)
    then show ?thesis by (intro exI[of _ "[]"]) simp
  next
    case (append ud)
    from Cons.IH[of "found + 1" "s\<lparr>users_collected := users_collected s @ [ud]\<rparr>"]
    obtain new where
      "snd (extract_loop e (result # rest) found s) =
         s\<lparr>users_collected := users_collected s @ ud # new\<rparr>"
      "\<forall>n. fst (extract_loop e (result # rest) found s) = Inr n \<longrightarrow>
           n = found + length (ud # new)"
      unfolding append(3) by auto
    then show ?thesis by blast
  qed
qed

lemma extract_loop_unique:
  "ids_unique (users_collected s) \<Longrightarrow>
     ids_unique (users_collected (snd (extract_loop e items found s)))"
proof (induction items arbitrary: found s)
  case Nil
  then show ?case by simp
next
  case (Cons result rest)
  show ?case
  proof (cases rule: extract_loop_step[of e result rest found s])
    case skip
    with Cons show ?thesis by simp
  next
    case (raise err)
    with Cons.prems show ?thesis by simp
  next
    case (append ud)
    with Cons.prems
    have "ids_unique (users_collected (s\<lparr>users_collected := users_collected s @ [ud]\<rparr>))"
      by (simp add: ids_unique_snoc)
    from Cons.IH[OF this] append(3) show ?thesis by simp
  qed
qed

lemma extract_loop_no_interrupt:
  "fst (extract_loop e items found s) \<noteq> Inl KeyboardInterrupt"
proof (induction items arbitrary: found s)
  case Nil
  show ?case by simp
next
  case (Cons result rest)
  show ?case
  proof (cases rule: extract_loop_step[of e result rest found s])
    case skip
    with Cons.IH[of found s] show ?thesis by simp
  next
    case (raise err)
    then show ?thesis by simp
  next
    case (append ud)
    with Cons.IH show ?thesis by simp
  qed
qed

text \<open>The checks in front of the loop leave the scraper as it is.\<close>

lemma extract_users_from_response_cases:
  obtains (raise) err where "extract_users_from_response e data s = (Inl err, s)"
      "err \<noteq> KeyboardInterrupt"
  | (nothing) "extract_users_from_response e data s = (Inr 0, s)"
  | (loop) items where "extract_users_from_response e data s = extract_loop e items 0 s"
proof -
  let ?m = "bind_err (py_in ''data'' data) (\<lambda>has_data.
             if \<not> has_data then Inr None
             else bind_err (py_getitem data ''data'') (\<lambda>d.
                  bind_err (py_in ''results'' d) (\<lambda>has_results.
                  if \<not> has_results then Inr None
                  else bind_err (py_getitem d ''results'') (\<lambda>results.
                       bind_err (py_iter results) (\<lambda>items. Inr (Some items))))))"
  have ni: "?m \<noteq> Inl KeyboardInterrupt"
    by (intro bind_err_no_interrupt if_no_interrupt py_in_no_interrupt
        py_getitem_no_interrupt py_iter_no_interrupt) simp_all
  have eq: "extract_users_from_response e data s =
      (case ?m of Inl err \<Rightarrow> (Inl err, s) | Inr None \<Rightarrow> (Inr 0, s)
       | Inr (Some items) \<Rightarrow> extract_loop e items 0 s)"
    by (simp add: extract_users_from_response_def)
  show ?thesis
  proof (cases ?m)
    case (Inl err)
    with ni eq have "extract_users_from_response e data s = (Inl err, s)"
      "err \<noteq> KeyboardInterrupt" by auto
    then show ?thesis by (rule raise)
  next
    case (Inr v)
    show ?thesis
    proof (cases v)
      case None
      with Inr eq have "extract_users_from_response e data s = (Inr 0, s)" by simp
      then show ?thesis by (rule nothing)
    next
      case (Some items)
      with Inr eq have "extract_users_from_response e data s = extract_loop e items 0 s"
        by simp
      then show ?thesis by (rule loop)
    qed
  qed
qed

lemma extract_users_from_response_facts:
  "(\<exists>new. snd (extract_users_from_response e data s) =
            s\<lparr>users_collected := users_collected s @ new\<rparr> \<and>
          (\<forall>n. fst (extract_users_from_response e data s) = Inr n \<longrightarrow> n = length new)) \<and>
   (ids_unique (users_collected s) \<longrightarrow>
      ids_unique (users_collected (snd (extract_users_from_response e data s)))) \<and>
   fst (extract_users_from_response e data s) \<noteq> Inl KeyboardInterrupt"
proof (cases rule: extract_users_from_response_cases[of e data s])
  case (raise err)
  then show ?thesis by (auto intro: exI[of _ "[]"])
next
  case nothing
  then show ?thesis by (auto intro: exI[of _ "[]"])
next
  case (loop items)
  from extract_loop_appends[of e items 0 s] extract_loop_unique[of s e items 0]
    extract_loop_no_interrupt[of e items 0 s]
  show ?thesis unfolding loop by simp
qed


lemma make_recs_request_result:
  "make_recs_request f = Inl KeyboardInterrupt \<or>
   (\<exists>status response_data. make_recs_request f = Inr (status, response_data))"
  by (cases f) (simp_all split: option.splits)

lemma make_recs_request_cases:
  obtains (interrupted) "make_recs_request f = Inl KeyboardInterrupt"
  | (answered) status response_data where "make_recs_request f = Inr (status, response_data)"
  using make_recs_request_result[of f] by blast

text \<open>One turn of the polling loop.\<close>

lemma scraping_loop_step:
  obtains
    (limit) "\<not> loop_condition mx s"
      "scraping_loop e mx (c # cs) s = (STOP_REQUEST_LIMIT, s)"
  | (interrupted) "loop_condition mx s"
      "scraping_loop e mx (c # cs) s =
         (STOP_INTERRUPTED, s\<lparr>request_count := request_count s + 1\<rparr>)"
  | (non_200) "loop_condition mx s"
      "scraping_loop e mx (c # cs) s =
         (STOP_NON_200, s\<lparr>request_count := request_count s + 1\<rparr>)"
  | (raised) err new where "loop_condition mx s" "err \<noteq> KeyboardInterrupt"
      "ids_unique (users_collected s) \<longrightarrow> ids_unique (users_collected s @ new)"
      "scraping_loop e mx (c # cs) s =
         (Raised err, s\<lparr>request_count := request_count s + 1,
                         users_collected := users_collected s @ new\<rparr>)"
  | (empty_page) "loop_condition mx s"
      "scraping_loop e mx (c # cs) s =
         (STOP_EMPTY_PAGE, s\<lparr>request_count := request_count s + 1\<rparr>)"
  | (found) new where "loop_condition mx s" "new \<noteq> []"
      "ids_unique (users_collected s) \<longrightarrow> ids_unique (users_collected s @ new)"
      "scraping_loop e mx (c # cs) s =
         (if sleep_interrupted c
          then (STOP_INTERRUPTED, s\<lparr>request_count := request_count s + 1,
                                     users_collected := users_collected s @ new,
                                     csv_rows := csv_rows s @ new\<rparr>)
          else scraping_loop e mx cs (s\<lparr>request_count := request_count s + 1,
                                        users_collected := users_collected s @ new,
                                        csv_rows := csv_rows s @ new\<rparr>))"
proof (cases "loop_condition mx s")
  case False
  then show ?thesis by (intro limit) simp_all
next
  case go: True
  let ?s1 = "s\<lparr>request_count := request_count s + 1\<rparr>"
  show ?thesis
  proof (cases rule: make_recs_request_cases[of "fetched c"])
    case interrupted
    with go show ?thesis by (intro that(2)) (simp_all add: leave_by_def)
  next
    case (answered status response_data)
    show ?thesis
    proof (cases "status = Some 200")
      case False
      with go answered show ?thesis by (intro non_200) simp_all
    next
      case ok: True
      obtain r s2 where ex: "extract_users_from_response e response_data ?s1 = (r, s2)"
        by (cases "extract_users_from_response e response_data ?s1") blast
      from extract_users_from_response_facts[of e response_data ?s1] ex
      obtain new where s2: "s2 = ?s1\<lparr>users_collected := users_collected s @ new\<rparr>"
        and cnt: "\<forall>n. r = Inr n \<longrightarrow> n = length new"
        and uniq: "ids_unique (users_collected s) \<longrightarrow> ids_unique (users_collected s @ new)"
        and ni: "r \<noteq> Inl KeyboardInterrupt"
        by auto
      show ?thesis
      proof (cases r)
        case (Inl err)
        with ni have "err \<noteq> KeyboardInterrupt" by simp
        moreover from go answered ok ex Inl s2 this
        have "scraping_loop e mx (c # cs) s =
           (Raised err, s\<lparr>request_count := request_count s + 1,
                           users_collected := users_collected s @ new\<rparr>)"
          by (simp add: leave_by_def)
        ultimately show ?thesis using go uniq by (intro raised[of err new]) simp_all
      next
        case (Inr n)
        with cnt have n: "n = length new" by simp
        show ?thesis
        proof (cases "new = []")
          case True
          with go answered ok ex Inr n s2
          have "scraping_loop e mx (c # cs) s = (STOP_EMPTY_PAGE, ?s1)" by simp
          with go show ?thesis by (intro empty_page) simp_all
        next
          case False
          with go answered ok ex Inr n s2
          have "scraping_loop e mx (c # cs) s =
             (if sleep_interrupted c
              then (STOP_INTERRUPTED, s\<lparr>request_count := request_count s + 1,
                                     users_collected := users_collected s @ new,
                                     csv_rows := csv_rows s @ new\<rparr>)
              else scraping_loop e mx cs (s\<lparr>request_count := request_count s + 1,
                                        users_collected := users_collected s @ new,
                                        csv_rows := csv_rows s @ new\<rparr>))"
            by (simp add: save_users_to_csv_def)
          with go False uniq show ?thesis by (intro found[of new]) simp_all
        qed
      qed
    qed
  qed
qed


section \<open>The age calculator: properties\<close>

text \<open>
  C4.  For a birth date that the parser reads, \<^verbatim>\<open>calculate_age\<close> returns the difference
  of the years, less one exactly when the month and day of today come strictly before the
  month and day of birth in the lexicographic order.  In particular a parser that reads
  \<^verbatim>\<open>2000-06-15\<close> as that day gives 23 on 2024-06-14, and 24 on 2024-06-15 and on every
  later day of that year.
\<close>

theorem calculate_age_whole_years:
  "(s \<noteq> [] \<and> s \<noteq> ''N/A'' \<and> parse (str_replace CHR ''Z'' ''+00:00'' s) = Some b \<longrightarrow>
      calculate_age parse today (PStr s) =
        Age (year today - year b -
             (if (month today, day today) < (month b, day b) then 1 else 0))) \<and>
   (parse ''2000-06-15'' = Some \<lparr>year = 2000, month = 6, day = 15\<rparr> \<longrightarrow>
      calculate_age parse \<lparr>year = 2024, month = 6, day = 14\<rparr> (PStr ''2000-06-15'') = Age 23 \<and>
      (\<forall>m d. (6, 15) \<le> (m, d) \<longrightarrow>
         calculate_age parse \<lparr>year = 2024, month = m, day = d\<rparr> (PStr ''2000-06-15'') = Age 24))"
  by (auto simp: calculate_age_def calculate_age_try_def less_prod_def less_eq_prod_def Let_def)

lemma date_only_2000_06_15:
  "date_only ''2000-06-15'' = Some \<lparr>year = 2000, month = 6, day = 15\<rparr>"
  by (simp add: date_only_def digits_def digit_def days_in_month_def)

theorem calculate_age_whole_years_witness:
  "date_only (str_replace CHR ''Z'' ''+00:00'' ''2000-06-15'') =
     Some \<lparr>year = 2000, month = 6, day = 15\<rparr> \<and>
   calculate_age date_only \<lparr>year = 2024, month = 6, day = 14\<rparr> (PStr ''2000-06-15'') = Age 23 \<and>
   calculate_age date_only \<lparr>year = 2024, month = 6, day = 15\<rparr> (PStr ''2000-06-15'') = Age 24 \<and>
   calculate_age date_only \<lparr>year = 2024, month = 12, day = 31\<rparr> (PStr ''2000-06-15'') = Age 24 \<and>
   calculate_age date_only \<lparr>year = 2025, month = 3, day = 1\<rparr> (PStr ''2000-06-15'') = Age 24"
proof -
  have p: "date_only ''2000-06-15'' = Some \<lparr>year = 2000, month = 6, day = 15\<rparr>"
    by (rule date_only_2000_06_15)
  have "(12::int, 31::int) \<ge> (6, 15)" by (simp add: less_eq_prod_def)
  with p calculate_age_whole_years[of "''2000-06-15''" date_only
      "\<lparr>year = 2000, month = 6, day = 15\<rparr>" "\<lparr>year = 2025, month = 3, day = 1\<rparr>"]
  show ?thesis by (simp add: less_prod_def less_eq_prod_def)
qed

text \<open>
  C5.  On the empty string, on \<^verbatim>\<open>N/A\<close> and on every string that the parser rejects,
  \<^verbatim>\<open>calculate_age\<close> returns the sentinel \<^verbatim>\<open>N/A\<close>.  The function has no way to
  raise: its bare \<^verbatim>\<open>except\<close> is the last branch of the model.
\<close>

theorem calculate_age_unknown:
  "s = [] \<or> s = ''N/A'' \<or> parse (str_replace CHR ''Z'' ''+00:00'' s) = None \<Longrightarrow>
     calculate_age parse today (PStr s) = NA"
  by (auto simp: calculate_age_def calculate_age_try_def)

lemma date_only_rejects:
  "date_only ''not-a-date'' = None" "date_only ''2001-02-29'' = None"
  "date_only ''2000-13-01'' = None"
  by (simp_all add: date_only_def digits_def digit_def days_in_month_def)

theorem calculate_age_unknown_witness:
  "date_only (str_replace CHR ''Z'' ''+00:00'' ''not-a-date'') = None \<and>
   calculate_age date_only \<lparr>year = 2024, month = 6, day = 14\<rparr> (PStr ''not-a-date'') = NA \<and>
   calculate_age date_only \<lparr>year = 2024, month = 6, day = 14\<rparr> (PStr ''2001-02-29'') = NA \<and>
   calculate_age date_only \<lparr>year = 2024, month = 6, day = 14\<rparr> (PStr ''2000-13-01'') = NA \<and>
   calculate_age date_only \<lparr>year = 2024, month = 6, day = 14\<rparr> (PStr ''N/A'') = NA \<and>
   calculate_age date_only \<lparr>year = 2024, month = 6, day = 14\<rparr> (PStr []) = NA"
  using calculate_age_unknown[of "''not-a-date''" date_only]
    calculate_age_unknown[of "''2001-02-29''" date_only]
    calculate_age_unknown[of "''2000-13-01''" date_only]
    calculate_age_unknown[of "''N/A''" date_only]
    calculate_age_unknown[of "[]" date_only]
  by (simp add: date_only_rejects)

section \<open>Deduplication\<close>

lemma scraping_loop_invariant:
  assumes "ids_unique (users_collected s)" and "csv_rows s = users_collected s"
  shows "ids_unique (users_collected (snd (scraping_loop e mx script s))) \<and>
         prefix (csv_rows (snd (scraping_loop e mx script s)))
                (users_collected (snd (scraping_loop e mx script s))) \<and>
         ((\<forall>err. fst (scraping_loop e mx script s) \<noteq> Raised err) \<longrightarrow>
            csv_rows (snd (scraping_loop e mx script s)) =
            users_collected (snd (scraping_loop e mx script s)))"
  using assms
proof (induction script arbitrary: s)
  case Nil
  then show ?case by simp
next
  case (Cons c cs)
  show ?case
  proof (cases rule: scraping_loop_step[of mx s e c cs])
    case limit
    with Cons.prems show ?thesis by simp
  next
    case interrupted
    with Cons.prems show ?thesis by simp
  next
    case non_200
    with Cons.prems show ?thesis by simp
  next
    case (raised err new)
    with Cons.prems show ?thesis by simp
  next
    case empty_page
    with Cons.prems show ?thesis by simp
  next
    case (found new)
    let ?s3 = "s\<lparr>request_count := request_count s + 1,
                  users_collected := users_collected s @ new,
                  csv_rows := csv_rows s @ new\<rparr>"
    from found Cons.prems have inv: "ids_unique (users_collected ?s3)"
      "csv_rows ?s3 = users_collected ?s3" by simp_all
    show ?thesis
    proof (cases "sleep_interrupted c")
      case True
      with found inv show ?thesis by simp
    next
      case False
      with found Cons.IH[OF inv] show ?thesis by simp
    qed
  qed
qed

lemma ids_unique_at_most_one:
  "ids_unique us \<Longrightarrow> py_eq x x \<Longrightarrow> length (filter (\<lambda>v. user_id v = x) us) \<le> 1"
proof (induction us)
  case Nil
  then show ?case by simp
next
  case (Cons u us)
  show ?case
  proof (cases "user_id u = x")
    case True
    with Cons.prems have "\<forall>v \<in> set us. \<not> py_eq x (user_id v)" by (simp add: list_ex_iff)
    with Cons.prems(2) have "filter (\<lambda>v. user_id v = x) us = []"
      by (auto simp: filter_empty_conv)
    with True show ?thesis by simp
  next
    case False
    with Cons show ?thesis by simp
  qed
qed

lemma extract_loop_skips_seen:
  assumes "map_of r ''type'' = Some (PStr ''user'')" "map_of r ''user'' = Some (PDict u)"
    "map_of u ''_id'' = Some uid"
    "list_ex (\<lambda>v. py_eq (user_id v) uid) (users_collected s)"
  shows "extract_loop e (PDict r # rest) found s = extract_loop e rest found s"
  using assms by (simp add: bind_err_def)

lemma extract_loop_appends_new:
  assumes "map_of r ''type'' = Some (PStr ''user'')" "map_of r ''user'' = Some (PDict u)"
    "map_of u ''_id'' = Some uid" "truthy uid"
    "\<not> list_ex (\<lambda>v. py_eq (user_id v) uid) (users_collected s)"
    "make_user_data e s (PDict u) uid = Inr ud"
  shows "extract_loop e (PDict r # rest) found s =
         extract_loop e rest (found + 1) (s\<lparr>users_collected := users_collected s @ [ud]\<rparr>)"
  using assms by (simp add: bind_err_def)

lemma extract_results_page:
  "extract_users_from_response e (results_page items) s = extract_loop e items 0 s"
  by (simp add: extract_users_from_response_def results_page_def bind_err_def)

text \<open>
  C1.  Whatever the outside world does and wherever the run is looked at, the collection
  and the CSV rows of a run that starts from a new scraper never hold two records whose ids
  Python's \<^verbatim>\<open>==\<close> identifies; in particular every string occurs at most once as a
  \<^verbatim>\<open>user_id\<close>.  The rows are an initial part of the collection, and all of it unless an
  exception ended the loop.  An item whose \<^verbatim>\<open>_id\<close> is already in the collection is
  skipped, and a page that carries the same new user object twice adds exactly one record.
\<close>

theorem user_id_stored_once:
  "(case scraping_loop e mx script (init_scraper fn) of
      (ex, s') \<Rightarrow>
        ids_unique (users_collected s') \<and> ids_unique (csv_rows s') \<and>
        (\<forall>a. length (filter (\<lambda>v. user_id v = PStr a) (users_collected s')) \<le> 1) \<and>
        (\<forall>a. length (filter (\<lambda>v. user_id v = PStr a) (csv_rows s')) \<le> 1) \<and>
        prefix (csv_rows s') (users_collected s') \<and>
        ((\<forall>err. ex \<noteq> Raised err) \<longrightarrow> csv_rows s' = users_collected s')) \<and>
   (map_of r ''type'' = Some (PStr ''user'') \<and> map_of r ''user'' = Some (PDict u) \<and>
    map_of u ''_id'' = Some uid \<and>
    list_ex (\<lambda>v. py_eq (user_id v) uid) (users_collected s) \<longrightarrow>
      extract_loop e (PDict r # rest) found s = extract_loop e rest found s) \<and>
   (map_of r' ''type'' = Some (PStr ''user'') \<and> map_of r' ''user'' = Some (PDict u') \<and>
    map_of u' ''_id'' = Some (PStr a) \<and> a \<noteq> [] \<and>
    \<not> list_ex (\<lambda>v. py_eq (user_id v) (PStr a)) (users_collected s0) \<and>
    make_user_data e s0 (PDict u') (PStr a) = Inr ud \<longrightarrow>
      extract_users_from_response e (results_page [PDict r', PDict r']) s0 =
        (Inr 1, s0\<lparr>users_collected := users_collected s0 @ [ud]\<rparr>))"
proof (intro conjI impI)
  obtain ex s' where L: "scraping_loop e mx script (init_scraper fn) = (ex, s')"
    by (cases "scraping_loop e mx script (init_scraper fn)") blast
  from scraping_loop_invariant[of "init_scraper fn" e mx script] L
  have inv: "ids_unique (users_collected s')" "prefix (csv_rows s') (users_collected s')"
    "(\<forall>err. ex \<noteq> Raised err) \<longrightarrow> csv_rows s' = users_collected s'"
    by (simp_all add: init_scraper_def)
  from inv(2) obtain more where "users_collected s' = csv_rows s' @ more"
    by (auto simp: prefix_def)
  with inv(1) have csv: "ids_unique (csv_rows s')" by (simp add: ids_unique_prefix)
  from inv csv ids_unique_at_most_one[of _ "PStr _"]
  show "case scraping_loop e mx script (init_scraper fn) of
      (ex, s') \<Rightarrow>
        ids_unique (users_collected s') \<and> ids_unique (csv_rows s') \<and>
        (\<forall>a. length (filter (\<lambda>v. user_id v = PStr a) (users_collected s')) \<le> 1) \<and>
        (\<forall>a. length (filter (\<lambda>v. user_id v = PStr a) (csv_rows s')) \<le> 1) \<and>
        prefix (csv_rows s') (users_collected s') \<and>
        ((\<forall>err. ex \<noteq> Raised err) \<longrightarrow> csv_rows s' = users_collected s')"
    unfolding L by simp
next
  assume "map_of r ''type'' = Some (PStr ''user'') \<and> map_of r ''user'' = Some (PDict u) \<and>
    map_of u ''_id'' = Some uid \<and>
    list_ex (\<lambda>v. py_eq (user_id v) uid) (users_collected s)"
  then show "extract_loop e (PDict r # rest) found s = extract_loop e rest found s"
    by (intro extract_loop_skips_seen[where uid = uid and u = u]) simp_all
next
  assume a: "map_of r' ''type'' = Some (PStr ''user'') \<and> map_of r' ''user'' = Some (PDict u') \<and>
    map_of u' ''_id'' = Some (PStr a) \<and> a \<noteq> [] \<and>
    \<not> list_ex (\<lambda>v. py_eq (user_id v) (PStr a)) (users_collected s0) \<and>
    make_user_data e s0 (PDict u') (PStr a) = Inr ud"
  let ?s1 = "s0\<lparr>users_collected := users_collected s0 @ [ud]\<rparr>"
  from a have "make_user_data e s0 (PDict u') (PStr a) = Inr ud" by simp
  then have id: "user_id ud = PStr a" by (rule make_user_data_user_id)
  from a have "extract_loop e [PDict r', PDict r'] 0 s0 = extract_loop e [PDict r'] (0 + 1) ?s1"
    by (intro extract_loop_appends_new[where uid = "PStr a" and u = u']) simp_all
  also from a id have "\<dots> = extract_loop e [] (0 + 1) ?s1"
    by (intro extract_loop_skips_seen[where uid = "PStr a" and u = u']) simp_all
  finally show "extract_users_from_response e (results_page [PDict r', PDict r']) s0 =
        (Inr 1, ?s1)"
    by (simp add: extract_results_page)
qed

lemmas run_defs = user_entry_def results_page_def answer_def
  run_continuous_scraping_def extract_users_from_response_def
  bind_err_def make_user_data_def bio_of_def py_join_def calculate_age_def calculate_age_try_def
  save_users_to_csv_def loop_condition_def leave_by_def summary_def init_scraper_def Let_def
  sample_env_def

theorem user_id_stored_once_witness:
  "(case scraping_loop sample_env None
           [answer 200 [] (Some (results_page [user_entry [(''_id'', PStr ''u1'')],
                                               user_entry [(''_id'', PStr ''u1'')]])),
            answer 200 [] (Some (results_page [user_entry [(''_id'', PStr ''u1'')]]))]
           (init_scraper ''users.csv'') of
      (ex, s') \<Rightarrow>
        ex = STOP_EMPTY_PAGE \<and> map user_id (csv_rows s') = [PStr ''u1''] \<and>
        csv_rows s' = users_collected s' \<and> ids_unique (csv_rows s')) \<and>
   extract_loop sample_env [user_entry [(''_id'', PStr ''u1'')]] 0
     ((init_scraper ''users.csv'')\<lparr>users_collected := [u1_record]\<rparr>) =
     (Inr 0, (init_scraper ''users.csv'')\<lparr>users_collected := [u1_record]\<rparr>) \<and>
   extract_users_from_response sample_env
     (results_page [user_entry [(''_id'', PStr ''u1'')], user_entry [(''_id'', PStr ''u1'')]])
     (init_scraper ''users.csv'') =
     (Inr 1, (init_scraper ''users.csv'')\<lparr>users_collected := [u1_record]\<rparr>)"
  using user_id_stored_once[where e = sample_env and mx = None and fn = "''users.csv''"
      and script = "[answer 200 [] (Some (results_page [user_entry [(''_id'', PStr ''u1'')],
                                               user_entry [(''_id'', PStr ''u1'')]])),
            answer 200 [] (Some (results_page [user_entry [(''_id'', PStr ''u1'')]]))]"
      and r = "[(''type'', PStr ''user''), (''user'', PDict [(''_id'', PStr ''u1'')])]"
      and u = "[(''_id'', PStr ''u1'')]" and uid = "PStr ''u1''"
      and s = "(init_scraper ''users.csv'')\<lparr>users_collected := [u1_record]\<rparr>"
      and rest = "[]" and found = 0
      and r' = "[(''type'', PStr ''user''), (''user'', PDict [(''_id'', PStr ''u1'')])]"
      and u' = "[(''_id'', PStr ''u1'')]" and a = "''u1''"
      and ?s0.0 = "init_scraper ''users.csv''" and ud = u1_record]
  by (simp add: run_defs u1_record_def)


section \<open>The request limit\<close>



lemma scraping_loop_counter:
  assumes "m \<noteq> 0"
  shows "request_count s \<le> request_count (snd (scraping_loop e (Some m) script s)) \<and>
         int (request_count (snd (scraping_loop e (Some m) script s))) \<le> max m (int (request_count s)) \<and>
         (fst (scraping_loop e (Some m) script s) = STOP_REQUEST_LIMIT \<longrightarrow>
            m \<le> int (request_count (snd (scraping_loop e (Some m) script s)))) \<and>
         (m \<le> int (request_count s) + int (length script) \<longrightarrow>
            fst (scraping_loop e (Some m) script s) \<noteq> Script_ended)"
proof (induction script arbitrary: s)
  case Nil
  from assms show ?case by (auto simp: loop_condition_def)
next
  case (Cons c cs)
  show ?case
  proof (cases rule: scraping_loop_step[of "Some m" s e c cs])
    case limit
    with assms show ?thesis by (auto simp: loop_condition_def)
  next
    case interrupted
    with assms show ?thesis by (auto simp: loop_condition_def)
  next
    case non_200
    with assms show ?thesis by (auto simp: loop_condition_def)
  next
    case (raised err new)
    with assms show ?thesis by (auto simp: loop_condition_def)
  next
    case empty_page
    with assms show ?thesis by (auto simp: loop_condition_def)
  next
    case (found new)
    let ?s3 = "s\<lparr>request_count := request_count s + 1,
                  users_collected := users_collected s @ new,
                  csv_rows := csv_rows s @ new\<rparr>"
    show ?thesis
    proof (cases "sleep_interrupted c")
      case True
      with found assms show ?thesis by (auto simp: loop_condition_def)
    next
      case False
      with found assms Cons.IH[of ?s3] show ?thesis by (auto simp: loop_condition_def)
    qed
  qed
qed

lemma scraping_loop_at_limit:
  "\<not> loop_condition mx s \<Longrightarrow> scraping_loop e mx script s = (STOP_REQUEST_LIMIT, s)"
  by (cases script) simp_all

text \<open>
  C8, as amended.  With a maximum of \<open>m > 0\<close> requests the counter, which is raised by
  one in front of every request, never passes \<open>m\<close> (nor its starting value); so the
  call issues at most \<open>m\<close> requests.  The loop is left by its condition only once the
  counter has reached \<open>m\<close>, a scraper whose counter has reached \<open>m\<close> issues no
  request at all, and \<open>m\<close> cycles are enough for the loop to end.  A maximum of 0 is
  left out: \<^verbatim>\<open>not max_requests\<close> makes it the same as no maximum.
\<close>

theorem request_limit:
  "0 < m \<Longrightarrow>
     (case scraping_loop e (Some m) script s of
        (ex, s') \<Rightarrow>
          int (request_count s') \<le> max m (int (request_count s)) \<and>
          int (request_count s' - request_count s) \<le> m \<and>
          (ex = STOP_REQUEST_LIMIT \<longrightarrow> m \<le> int (request_count s')) \<and>
          (m \<le> int (request_count s) + int (length script) \<longrightarrow> ex \<noteq> Script_ended)) \<and>
     (m \<le> int (request_count s) \<longrightarrow>
        scraping_loop e (Some m) script s = (STOP_REQUEST_LIMIT, s))"
proof (intro conjI impI)
  assume m: "0 < m"
  obtain ex s' where L: "scraping_loop e (Some m) script s = (ex, s')"
    by (cases "scraping_loop e (Some m) script s") blast
  from m scraping_loop_counter[of m s e script] L
  show "case scraping_loop e (Some m) script s of
        (ex, s') \<Rightarrow>
          int (request_count s') \<le> max m (int (request_count s)) \<and>
          int (request_count s' - request_count s) \<le> m \<and>
          (ex = STOP_REQUEST_LIMIT \<longrightarrow> m \<le> int (request_count s')) \<and>
          (m \<le> int (request_count s) + int (length script) \<longrightarrow> ex \<noteq> Script_ended)"
    by auto
next
  assume "0 < m" "m \<le> int (request_count s)"
  then show "scraping_loop e (Some m) script s = (STOP_REQUEST_LIMIT, s)"
    by (intro scraping_loop_at_limit) (simp add: loop_condition_def)
qed

theorem request_limit_witness:
  "(0::int) < 2 \<and>
   (case scraping_loop sample_env (Some 2)
           [answer 200 [] (Some (results_page [user_entry [(''_id'', PStr ''u1'')]])),
            answer 200 [] (Some (results_page [user_entry [(''_id'', PStr ''u2'')]])),
            answer 200 [] (Some (results_page [user_entry [(''_id'', PStr ''u3'')]]))]
           (init_scraper ''users.csv'') of
      (ex, s') \<Rightarrow> ex = STOP_REQUEST_LIMIT \<and> request_count s' = 2 \<and>
                  map user_id (users_collected s') = [PStr ''u1'', PStr ''u2'']) \<and>
   scraping_loop sample_env (Some 2) [answer 200 [] (Some (results_page []))]
     ((init_scraper ''users.csv'')\<lparr>request_count := 2\<rparr>) =
     (STOP_REQUEST_LIMIT, (init_scraper ''users.csv'')\<lparr>request_count := 2\<rparr>)"
  using request_limit[where m = 2 and e = sample_env and s = "init_scraper ''users.csv''"
      and script = "[answer 200 [] (Some (results_page [user_entry [(''_id'', PStr ''u1'')]])),
            answer 200 [] (Some (results_page [user_entry [(''_id'', PStr ''u2'')]])),
            answer 200 [] (Some (results_page [user_entry [(''_id'', PStr ''u3'')]]))]"]
    request_limit[where m = 2 and e = sample_env
      and s = "(init_scraper ''users.csv'')\<lparr>request_count := 2\<rparr>"
      and script = "[answer 200 [] (Some (results_page []))]"]
  by (simp add: run_defs)

text \<open>
  C8, as stated, fails at a maximum of 0: \<^verbatim>\<open>not 0\<close> is true, so the condition of the
  loop never stops it.  Two pages with a new user each and an answer 429 make three
  requests under a maximum of 0, and the loop is left by the status, not by the limit.
\<close>

theorem request_limit_counterexample:
  "fst (scraping_loop sample_env (Some 0)
          [answer 200 [] (Some (results_page [user_entry [(''_id'', PStr ''u1'')]])),
           answer 200 [] (Some (results_page [user_entry [(''_id'', PStr ''u2'')]])),
           answer 429 ''Too Many Requests'' None]
          (init_scraper ''users.csv'')) = STOP_NON_200 \<and>
   request_count (snd (scraping_loop sample_env (Some 0)
          [answer 200 [] (Some (results_page [user_entry [(''_id'', PStr ''u1'')]])),
           answer 200 [] (Some (results_page [user_entry [(''_id'', PStr ''u2'')]])),
           answer 429 ''Too Many Requests'' None]
          (init_scraper ''users.csv''))) = 3 \<and>
   \<not> int (request_count (snd (scraping_loop sample_env (Some 0)
          [answer 200 [] (Some (results_page [user_entry [(''_id'', PStr ''u1'')]])),
           answer 200 [] (Some (results_page [user_entry [(''_id'', PStr ''u2'')]])),
           answer 429 ''Too Many Requests'' None]
          (init_scraper ''users.csv'')))) \<le> 0"
  by (simp add: run_defs)


lemma scraping_loop_keeps:
  "csv_filename (snd (scraping_loop e mx script s)) = csv_filename s \<and>
   request_count s \<le> request_count (snd (scraping_loop e mx script s))"
proof (induction script arbitrary: s)
  case Nil
  show ?case by simp
next
  case (Cons c cs)
  show ?case
  proof (cases rule: scraping_loop_step[of mx s e c cs])
    case (found new)
    let ?s3 = "s\<lparr>request_count := request_count s + 1,
                  users_collected := users_collected s @ new,
                  csv_rows := csv_rows s @ new\<rparr>"
    from found Cons.IH[of ?s3] show ?thesis by (cases "sleep_interrupted c") simp_all
  qed simp_all
qed



section \<open>The summary at the end of the run\<close>

lemma sample_lines_str_ids:
  "list_all has_str_id us \<Longrightarrow>
     sample_lines i us =
       (map (\<lambda>(j, u). Sample (j + 1) (name u)
                         (case user_id u of PStr a \<Rightarrow> PStr (take 8 a) | x \<Rightarrow> x)
                         (age u) (photo_count u))
            (enumerate i us), None)"
proof (induction us arbitrary: i)
  case Nil
  show ?case by simp
next
  case (Cons u us)
  from Cons.prems obtain a where a: "user_id u = PStr a"
    by (auto simp: has_str_id_def split: pyval.splits)
  from Cons.prems have "list_all has_str_id us" by simp
  from Cons.IH[OF this, of "i + 1"] a show ?case by simp
qed

lemma summary_totals:
  "take 3 (fst (summary s)) =
     [Total_requests (request_count s), Total_users (length (users_collected s)),
      CSV_file (csv_filename s)]"
  by (simp add: summary_def Let_def split: prod.splits option.splits)

lemma summary_str_ids:
  "list_all has_str_id (take 5 (users_collected s)) \<Longrightarrow>
     summary s =
       ([Total_requests (request_count s), Total_users (length (users_collected s)),
         CSV_file (csv_filename s)] @ preview_of (users_collected s), None)"
  by (simp add: summary_def Let_def preview_of_def sample_lines_str_ids)

text \<open>
  C9.  Whenever the loop is left (by a status other than 200, by a page without new users,
  by the request limit, by an interrupt, or by an exception passing through), the call
  returns with the summary printed: the number of requests, the number of collected
  records and the name of the CSV file, which the run has not changed, come first; when
  the ids of the first five records are strings, the preview of at most five records
  follows and no exception is raised by the summary.  Only a loop that is still running
  prints no summary.
\<close>

theorem summary_on_every_exit:
  "case scraping_loop e mx script s of
     (ex, s') \<Rightarrow>
       (ex = Script_ended \<longrightarrow> run_continuous_scraping e mx script s = None) \<and>
       (ex \<noteq> Script_ended \<longrightarrow>
          (\<exists>r. run_continuous_scraping e mx script s = Some r \<and>
               exit_by r = ex \<and> final r = s' \<and> csv_filename s' = csv_filename s \<and>
               take 3 (printed r) =
                 [Total_requests (request_count s'), Total_users (length (users_collected s')),
                  CSV_file (csv_filename s')] \<and>
               (list_all has_str_id (take 5 (users_collected s')) \<longrightarrow>
                  printed r =
                    [Total_requests (request_count s'),
                     Total_users (length (users_collected s')),
                     CSV_file (csv_filename s')] @ preview_of (users_collected s') \<and>
                  length (preview_of (users_collected s')) \<le> 7 \<and>
                  raised r = (case ex of Raised x \<Rightarrow> Some x | _ \<Rightarrow> None))))"
proof -
  obtain ex s' where L: "scraping_loop e mx script s = (ex, s')"
    by (cases "scraping_loop e mx script s") blast
  obtain lines err where S: "summary s' = (lines, err)"
    by (cases "summary s'") blast
  from scraping_loop_keeps[of e mx script s] L have fn: "csv_filename s' = csv_filename s"
    by simp
  have none: "ex = Script_ended \<Longrightarrow> run_continuous_scraping e mx script s = None"
    using L by (simp add: run_continuous_scraping_def)
  have some: "run_continuous_scraping e mx script s =
      Some \<lparr>exit_by = ex, final = s', printed = lines,
            raised = (case err of Some x \<Rightarrow> Some x
                      | None \<Rightarrow> (case ex of Raised x \<Rightarrow> Some x | _ \<Rightarrow> None))\<rparr>"
    if "ex \<noteq> Script_ended"
    using that L S by (cases ex) (auto simp: run_continuous_scraping_def)
  from summary_totals[of s'] S
  have totals: "take 3 lines =
      [Total_requests (request_count s'), Total_users (length (users_collected s')),
       CSV_file (csv_filename s')]" by simp
  have strs: "lines = [Total_requests (request_count s'),
                      Total_users (length (users_collected s')),
                      CSV_file (csv_filename s')] @ preview_of (users_collected s') \<and>
              err = None"
    if "list_all has_str_id (take 5 (users_collected s'))"
    using summary_str_ids[OF that] S by simp
  have len: "length (preview_of (users_collected s')) \<le> 7"
    by (simp add: preview_of_def)
  show ?thesis
    unfolding L using none some fn totals strs len by auto
qed


theorem summary_on_every_exit_witness:
  "run_continuous_scraping sample_env None [] (init_scraper ''users.csv'') = None \<and>
   run_continuous_scraping sample_env None [answer 429 ''Too Many Requests'' None]
     (init_scraper ''users.csv'') =
     Some \<lparr>exit_by = STOP_NON_200,
           final = (init_scraper ''users.csv'')\<lparr>request_count := 1\<rparr>,
           printed = [Total_requests 1, Total_users 0, CSV_file ''users.csv''],
           raised = None\<rparr> \<and>
   run_continuous_scraping sample_env None [answer 200 [] (Some (results_page []))]
     (init_scraper ''users.csv'') =
     Some \<lparr>exit_by = STOP_EMPTY_PAGE,
           final = (init_scraper ''users.csv'')\<lparr>request_count := 1\<rparr>,
           printed = [Total_requests 1, Total_users 0, CSV_file ''users.csv''],
           raised = None\<rparr> \<and>
   run_continuous_scraping sample_env None
     [\<lparr>fetched = Fetch_interrupted, sleep_interrupted = False\<rparr>]
     (init_scraper ''users.csv'') =
     Some \<lparr>exit_by = STOP_INTERRUPTED,
           final = (init_scraper ''users.csv'')\<lparr>request_count := 1\<rparr>,
           printed = [Total_requests 1, Total_users 0, CSV_file ''users.csv''],
           raised = None\<rparr> \<and>
   (\<exists>r. run_continuous_scraping sample_env (Some 1)
          [answer 200 []
             (Some (results_page
                [user_entry [(''_id'', PStr ''0123456789''), (''name'', PStr ''Ann'')],
                 user_entry [(''_id'', PStr ''u2'')], user_entry [(''_id'', PStr ''u3'')],
                 user_entry [(''_id'', PStr ''u4'')], user_entry [(''_id'', PStr ''u5'')],
                 user_entry [(''_id'', PStr ''u6'')]]))]
          (init_scraper ''users.csv'') = Some r \<and>
        exit_by r = STOP_REQUEST_LIMIT \<and> raised r = None \<and>
        printed r =
          [Total_requests 1, Total_users 6, CSV_file ''users.csv'', Sample_header,
           Sample 1 (PStr ''Ann'') (PStr ''01234567'') NA 0,
           Sample 2 (PStr []) (PStr ''u2'') NA 0, Sample 3 (PStr []) (PStr ''u3'') NA 0,
           Sample 4 (PStr []) (PStr ''u4'') NA 0, Sample 5 (PStr []) (PStr ''u5'') NA 0,
           More_users 1])"
  using summary_on_every_exit[of sample_env None "[]" "init_scraper ''users.csv''"]
    summary_on_every_exit[of sample_env None "[answer 429 ''Too Many Requests'' None]"
      "init_scraper ''users.csv''"]
    summary_on_every_exit[of sample_env None "[answer 200 [] (Some (results_page []))]"
      "init_scraper ''users.csv''"]
    summary_on_every_exit[of sample_env None
      "[\<lparr>fetched = Fetch_interrupted, sleep_interrupted = False\<rparr>]"
      "init_scraper ''users.csv''"]
    summary_on_every_exit[of sample_env "Some 1"
      "[answer 200 []
             (Some (results_page
                [user_entry [(''_id'', PStr ''0123456789''), (''name'', PStr ''Ann'')],
                 user_entry [(''_id'', PStr ''u2'')], user_entry [(''_id'', PStr ''u3'')],
                 user_entry [(''_id'', PStr ''u4'')], user_entry [(''_id'', PStr ''u5'')],
                 user_entry [(''_id'', PStr ''u6'')]]))]"
      "init_scraper ''users.csv''"]
  by (simp add: run_defs has_str_id_def preview_of_def enumerate_eq_zip)

section \<open>The run of three pages\<close>

text \<open>
  C2.  Page 1 (status 200) brings two new users \<open>a\<close> and \<open>b\<close>, page 2 (status 200) a
  new user \<open>c\<close> and \<open>a\<close> once more, page 3 answers 429.  With no limit, or one of at
  least three requests, the loop is left at request 3 by the status, three records are
  collected and stored, and the summary reports 3 requests and 3 users.
\<close>

theorem three_pages:
  assumes "a \<noteq> []" "b \<noteq> []" "c \<noteq> []" "a \<noteq> b" "a \<noteq> c" "b \<noteq> c"
    and "case mx of None \<Rightarrow> True | Some m \<Rightarrow> m = 0 \<or> 3 \<le> m"
  shows "\<exists>r. run_continuous_scraping e mx
           [answer 200 t1 (Some (results_page [user_entry [(''_id'', PStr a)],
                                               user_entry [(''_id'', PStr b)]])),
            answer 200 t2 (Some (results_page [user_entry [(''_id'', PStr c)],
                                               user_entry [(''_id'', PStr a)]])),
            answer 429 t3 j3]
           (init_scraper fn) = Some r \<and>
         exit_by r = STOP_NON_200 \<and>
         request_count (final r) = 3 \<and>
         map user_id (users_collected (final r)) = [PStr a, PStr b, PStr c] \<and>
         csv_rows (final r) = users_collected (final r) \<and>
         length (csv_rows (final r)) = 3 \<and>
         take 2 (printed r) = [Total_requests 3, Total_users 3] \<and>
         raised r = None"
  using assms
  by (cases mx)
    (auto simp: user_entry_def results_page_def answer_def
      run_continuous_scraping_def extract_users_from_response_def
      bind_err_def make_user_data_def bio_of_def py_join_def calculate_age_def
      calculate_age_try_def save_users_to_csv_def loop_condition_def leave_by_def
      summary_def init_scraper_def Let_def)

theorem three_pages_witness:
  "run_continuous_scraping sample_env None
     [answer 200 [] (Some (results_page [user_entry [(''_id'', PStr ''u1'')],
                                         user_entry [(''_id'', PStr ''u2'')]])),
      answer 200 [] (Some (results_page [user_entry [(''_id'', PStr ''u3'')],
                                         user_entry [(''_id'', PStr ''u1'')]])),
      answer 429 ''Too Many Requests'' None]
     (init_scraper ''users.csv'') =
   Some \<lparr>exit_by = STOP_NON_200,
         final = \<lparr>users_collected =
                    [u1_record, u1_record\<lparr>user_id := PStr ''u2''\<rparr>,
                     u1_record\<lparr>user_id := PStr ''u3''\<rparr>],
                  request_count = 3, csv_filename = ''users.csv'',
                  csv_rows =
                    [u1_record, u1_record\<lparr>user_id := PStr ''u2''\<rparr>,
                     u1_record\<lparr>user_id := PStr ''u3''\<rparr>]\<rparr>,
         printed = [Total_requests 3, Total_users 3, CSV_file ''users.csv'', Sample_header,
                    Sample 1 (PStr []) (PStr ''u1'') NA 0,
                    Sample 2 (PStr []) (PStr ''u2'') NA 0,
                    Sample 3 (PStr []) (PStr ''u3'') NA 0],
         raised = None\<rparr>"
  using three_pages[of "''u1''" "''u2''" "''u3''" None sample_env "[]" "[]"
      "''Too Many Requests''" None "''users.csv''"]
  by (simp add: run_defs u1_record_def)


section \<open>Bodies and pages that are not what the endpoint promises\<close>

lemma unparsable_body:
  "run_continuous_scraping e None [answer 200 t None] (init_scraper fn) =
     (if sublist ''data'' t
      then Some \<lparr>exit_by = Raised TypeError,
                 final = (init_scraper fn)\<lparr>request_count := 1\<rparr>,
                 printed = [Total_requests 1, Total_users 0, CSV_file fn],
                 raised = Some TypeError\<rparr>
      else Some \<lparr>exit_by = STOP_EMPTY_PAGE,
                 final = (init_scraper fn)\<lparr>request_count := 1\<rparr>,
                 printed = [Total_requests 1, Total_users 0, CSV_file fn],
                 raised = None\<rparr>)"
  by (simp add: answer_def run_continuous_scraping_def extract_users_from_response_def
      bind_err_def loop_condition_def leave_by_def summary_def init_scraper_def Let_def)

lemma sublist_data_html: "sublist ''data'' ''<html>no data</html>''"
  by (simp add: sublist_Cons_right)

text \<open>
  C3.  A response with status 200 whose body is not JSON is handed to the extractor as
  text, under its status 200.  When the text contains \<^verbatim>\<open>data\<close>, as the body
  \<^verbatim>\<open><html>no data</html>\<close> does, the extractor indexes the string and raises
  \<^verbatim>\<open>TypeError\<close>, which leaves \<^verbatim>\<open>run_continuous_scraping\<close> after the summary.
\<close>

theorem unparsable_body_raises:
  "make_recs_request
     (Fetch_response \<lparr>status_code = 200, text = ''<html>no data</html>'', json = None\<rparr>) =
     Inr (Some 200, PStr ''<html>no data</html>'') \<and>
   extract_users_from_response e (PStr ''<html>no data</html>'') s = (Inl TypeError, s) \<and>
   run_continuous_scraping e None [answer 200 ''<html>no data</html>'' None]
     (init_scraper fn) =
     Some \<lparr>exit_by = Raised TypeError,
           final = (init_scraper fn)\<lparr>request_count := 1\<rparr>,
           printed = [Total_requests 1, Total_users 0, CSV_file fn],
           raised = Some TypeError\<rparr>"
  using sublist_data_html
  by (simp add: unparsable_body extract_users_from_response_def bind_err_def)

lemma page_without_results:
  assumes "map_of d ''data'' = None \<or>
           (\<exists>d'. map_of d ''data'' = Some (PDict d') \<and> map_of d' ''results'' = None)"
  shows "extract_users_from_response e (PDict d) s = (Inr 0, s)"
    and "scraping_loop e None (answer 200 t (Some (PDict d)) # cs) s =
           (STOP_EMPTY_PAGE, s\<lparr>request_count := request_count s + 1\<rparr>)"
proof -
  from assms have "\<And>s. extract_users_from_response e (PDict d) s = (Inr 0, s)"
    by (auto simp: extract_users_from_response_def bind_err_def map_of_eq_None_iff
        dest: map_of_SomeD intro: rev_image_eqI)
  then show "extract_users_from_response e (PDict d) s = (Inr 0, s)"
    and "scraping_loop e None (answer 200 t (Some (PDict d)) # cs) s =
           (STOP_EMPTY_PAGE, s\<lparr>request_count := request_count s + 1\<rparr>)"
    by (simp_all add: answer_def loop_condition_def)
qed

text \<open>
  C7.  The page \<^verbatim>\<open>{"data": null}\<close> has no \<^verbatim>\<open>data.results\<close>.  The guard of the
  extractor finds the key \<^verbatim>\<open>data\<close> and then asks whether \<^verbatim>\<open>'results'\<close> is in
  \<^verbatim>\<open>None\<close>: \<^verbatim>\<open>TypeError\<close>.  No count is returned, and the loop is left by the
  exception, not as an empty page.
\<close>

theorem null_data_raises:
  "extract_users_from_response e (PDict [(''data'', PNone)]) s = (Inl TypeError, s) \<and>
   scraping_loop e None (answer 200 t (Some (PDict [(''data'', PNone)])) # cs) s =
     (Raised TypeError, s\<lparr>request_count := request_count s + 1\<rparr>) \<and>
   run_continuous_scraping e None [answer 200 t (Some (PDict [(''data'', PNone)]))]
     (init_scraper fn) =
     Some \<lparr>exit_by = Raised TypeError,
           final = (init_scraper fn)\<lparr>request_count := 1\<rparr>,
           printed = [Total_requests 1, Total_users 0, CSV_file fn],
           raised = Some TypeError\<rparr>"
  by (simp add: answer_def run_continuous_scraping_def extract_users_from_response_def
      bind_err_def loop_condition_def leave_by_def summary_def init_scraper_def Let_def)

section \<open>Photos\<close>

lemma photo_url_list_entries:
  "list_all photo_entry ps \<Longrightarrow>
     photo_url_list ps = Inr (map PStr (filter (\<lambda>u. u \<noteq> []) (map url_of ps)))"
proof (induction ps)
  case Nil
  show ?case by simp
next
  case (Cons p ps)
  then show ?case
    by (auto simp: photo_entry_def url_of_def bind_err_def
        split: pyval.splits option.splits)
qed

lemma str_items_strs: "str_items (map PStr us) = Inr us"
  by (induction us) (simp_all add: bind_err_def)

text \<open>
  C6.  For a user whose \<^verbatim>\<open>photos\<close> is a list of photo entries, the record that the
  extractor builds counts all the entries and joins with \<^verbatim>\<open>" | "\<close>, in their order,
  the urls of the entries that have a non-empty one.  Building the record fails only
  where the \<^verbatim>\<open>bio\<close> does.
\<close>

theorem photo_count_and_urls:
  assumes "map_of user ''photos'' = Some (PList ps)"
    and "list_all photo_entry ps"
    and "bio_of (PDict user) = Inr b"
  shows "\<exists>ud. make_user_data e s (PDict user) uid = Inr ud \<and>
              photo_count ud = length ps \<and>
              photo_urls ud = str_join '' | '' (filter (\<lambda>u. u \<noteq> []) (map url_of ps))"
  using assms
  by (simp add: make_user_data_def bind_err_def py_join_def photo_url_list_entries
      str_items_strs)

theorem photo_count_and_urls_witness:
  "list_all photo_entry
     [PDict [(''url'', PStr ''a'')], PDict [(''url'', PStr [])], PDict [(''url'', PStr ''b'')]] \<and>
   bio_of (PDict [(''_id'', PStr ''u1''),
                  (''photos'', PList [PDict [(''url'', PStr ''a'')], PDict [(''url'', PStr [])],
                                      PDict [(''url'', PStr ''b'')]])]) = Inr [] \<and>
   make_user_data sample_env (init_scraper ''users.csv'')
     (PDict [(''_id'', PStr ''u1''),
             (''photos'', PList [PDict [(''url'', PStr ''a'')], PDict [(''url'', PStr [])],
                                 PDict [(''url'', PStr ''b'')]])])
     (PStr ''u1'') =
     Inr (u1_record\<lparr>photo_count := 3, photo_urls := ''a | b''\<rparr>)"
  using photo_count_and_urls[of "[(''_id'', PStr ''u1''),
             (''photos'', PList [PDict [(''url'', PStr ''a'')], PDict [(''url'', PStr [])],
                                 PDict [(''url'', PStr ''b'')]])]"
      "[PDict [(''url'', PStr ''a'')], PDict [(''url'', PStr [])], PDict [(''url'', PStr ''b'')]]"
      "[]" sample_env "init_scraper ''users.csv''" "PStr ''u1''"]
  by (simp add: run_defs u1_record_def photo_entry_def url_of_def)

end
